theory Spec2Isabelle
  imports Complex_Main "HOL-Library.Word"
begin

section \<open>Data model of the path planner\<close>

text \<open>
  The planner of \<^verbatim>\<open>src/app/pathplanning/pathplanning.py\<close> (class \<^verbatim>\<open>Pathplanner\<close>).
  Grid coordinates are pairs of Python integers, stop ids and node indices are Python
  integers, a cost is the float the grid search returns (only ever compared with 0 and
  carried along), and the map is a two-dimensional array of unsigned bytes.
\<close>

type_synonym coord = "int \<times> int"
type_synonym path = "coord list"
type_synonym grid = "8 word list list"
type_synonym dist = "int \<times> int \<times> real"
type_synonym inner_dict = "int \<rightharpoonup> path"
type_synonym path_table = "int \<rightharpoonup> inner_dict"

text \<open>The exceptions the source can raise, as values.\<close>

datatype py_error =
    ValueError
  | AssertionError
  | KeyError
  | IndexError
  | UnpicklingError
  | SolverError

text \<open>
  The two library calls are parameters of the model: the grid search
  \<^verbatim>\<open>skimage.graph.route_through_array(map, start, end, fully_connected=True)\<close>, which returns
  a path and its cost or raises, and the closed-tour heuristic
  \<^verbatim>\<open>mlrose.genetic_alg\<close> over the edge list, which returns a tour or raises.
\<close>

type_synonym router = "grid \<Rightarrow> coord \<Rightarrow> coord \<Rightarrow> py_error + (path \<times> real)"
type_synonym solver = "dist list \<Rightarrow> int \<Rightarrow> py_error + int list"

record planner =
  map_arr :: grid
  product_locations :: "coord list"
  locations_hash :: string
  num_products :: nat
  inter_product_distances :: "dist list"
  inter_product_paths :: path_table
  dummy_id :: "int option"

subsection \<open>The cost grid\<close>

text \<open>
  \<^verbatim>\<open>self.map = np.clip(255 - skimage.io.imread(map_image_path), 1, 255)\<close> on an 8-bit
  grayscale image: the subtraction is the byte subtraction of the array type, and
  \<^verbatim>\<open>np.clip(a, lo, hi)\<close> is \<^verbatim>\<open>minimum(hi, maximum(a, lo))\<close>.
\<close>

definition clip :: "8 word \<Rightarrow> 8 word \<Rightarrow> 8 word \<Rightarrow> 8 word" where
  "clip a lo hi = min hi (max a lo)"

definition cost_map :: "8 word list list \<Rightarrow> grid" where
  "cost_map img = map (map (\<lambda>v. clip (255 - v) 1 255)) img"

subsection \<open>Bounds of the grid\<close>

text \<open>
  \<^verbatim>\<open>map_bounds = np.shape(self.map)\<close> and the local function
  \<^verbatim>\<open>raise_if_out_of_bounds\<close> of \<^verbatim>\<open>_calculate_inter_product_routes\<close>.
\<close>

definition map_bounds :: "grid \<Rightarrow> int \<times> int" where
  "map_bounds g = (int (length g), (case g of [] \<Rightarrow> 0 | r # _ \<Rightarrow> int (length r)))"

definition out_of_bounds :: "grid \<Rightarrow> coord \<Rightarrow> bool" where
  "out_of_bounds g loc =
     (fst loc \<ge> fst (map_bounds g) \<or> snd loc \<ge> snd (map_bounds g) \<or> fst loc < 0 \<or> snd loc < 0)"

definition raise_if_out_of_bounds :: "grid \<Rightarrow> coord \<Rightarrow> py_error + unit" where
  "raise_if_out_of_bounds g loc = (if out_of_bounds g loc then Inl ValueError else Inr ())"

subsection \<open>Pairwise precomputation\<close>

text \<open>
  \<^verbatim>\<open>_calculate_inter_product_routes\<close>. The inner loop runs over
  \<^verbatim>\<open>enumerate(product_locations[i_start:])\<close> with \<^verbatim>\<open>i_end += i_start + 1\<close>, the outer one over
  \<^verbatim>\<open>enumerate(product_locations[:-1])\<close> with \<^verbatim>\<open>i_start += 1\<close>. The progress bar is output only and
  is left out. A failed \<^verbatim>\<open>assert cost > 0\<close> is \<open>AssertionError\<close>.
\<close>

fun inter_product_inner ::
  "router \<Rightarrow> grid \<Rightarrow> nat \<Rightarrow> coord \<Rightarrow> (nat \<times> coord) list \<Rightarrow> dist list \<times> path_table
     \<Rightarrow> py_error + (dist list \<times> path_table)" where
  "inter_product_inner rta g i_start loc_start [] acc = Inr acc"
| "inter_product_inner rta g i_start loc_start ((i, loc_end) # rest) (dists, paths) =
     (let i_end = i + (i_start + 1) in
      case raise_if_out_of_bounds g loc_end of
        Inl e \<Rightarrow> Inl e
      | Inr _ \<Rightarrow>
          (case rta g loc_start loc_end of
             Inl e \<Rightarrow> Inl e
           | Inr (pth, cost) \<Rightarrow>
               if \<not> 0 < cost then Inl AssertionError
               else (case paths (int i_start) of
                       None \<Rightarrow> Inl KeyError
                     | Some d \<Rightarrow>
                         inter_product_inner rta g i_start loc_start rest
                           (dists @ [(int i_start, int i_end, cost)],
                            paths(int i_start \<mapsto> d(int i_end \<mapsto> pth))))))"

fun inter_product_outer ::
  "router \<Rightarrow> grid \<Rightarrow> coord list \<Rightarrow> (nat \<times> coord) list \<Rightarrow> dist list \<times> path_table
     \<Rightarrow> py_error + (dist list \<times> path_table)" where
  "inter_product_outer rta g locs [] acc = Inr acc"
| "inter_product_outer rta g locs ((i, loc_start) # rest) (dists, paths) =
     (let i_start = i + 1; paths1 = paths(int i_start \<mapsto> Map.empty) in
      case raise_if_out_of_bounds g loc_start of
        Inl e \<Rightarrow> Inl e
      | Inr _ \<Rightarrow>
          (case inter_product_inner rta g i_start loc_start
                  (List.enumerate 0 (drop i_start locs)) (dists, paths1) of
             Inl e \<Rightarrow> Inl e
           | Inr acc' \<Rightarrow> inter_product_outer rta g locs rest acc'))"

definition calculate_inter_product_routes ::
  "router \<Rightarrow> planner \<Rightarrow> py_error + (dist list \<times> path_table)" where
  "calculate_inter_product_routes rta p =
     inter_product_outer rta (map_arr p) (product_locations p)
       (List.enumerate 0 (butlast (product_locations p))) ([], Map.empty)"

subsection \<open>The persisted cache\<close>

text \<open>
  The file \<^verbatim>\<open>/tmp/path_cache.pickle\<close>, by what \<^verbatim>\<open>os.path.exists\<close> and \<^verbatim>\<open>pickle.load\<close> make of
  it: no file; a file on which \<^verbatim>\<open>pickle.load\<close> raises \<^verbatim>\<open>EOFError\<close> (an empty file); a file
  on which it raises \<^verbatim>\<open>UnpicklingError\<close> (bytes that are no pickle); a file holding a
  dictionary from location hashes to entries
  \<^verbatim>\<open>{"product_distances": ..., "product_paths": ...}\<close>.
\<close>

type_synonym cache_entry = "dist list \<times> path_table"
type_synonym cache_data = "string \<rightharpoonup> cache_entry"

datatype cache_file = No_file | Empty_file | Corrupt_file | Pickle_file cache_data

definition load_distance_and_paths :: "planner \<Rightarrow> cache_file \<Rightarrow> py_error + (bool \<times> planner)" where
  "load_distance_and_paths p f =
     (case f of
        No_file \<Rightarrow> Inr (False, p)
      | Empty_file \<Rightarrow> Inr (False, p)
      | Corrupt_file \<Rightarrow> Inl UnpicklingError
      | Pickle_file data \<Rightarrow>
          (case data (locations_hash p) of
             None \<Rightarrow> Inr (False, p)
           | Some (d, t) \<Rightarrow>
               Inr (True, p\<lparr>inter_product_distances := d, inter_product_paths := t\<rparr>)))"

definition store_distance_and_paths :: "planner \<Rightarrow> cache_file \<Rightarrow> py_error + cache_file" where
  "store_distance_and_paths p f =
     (case (case f of
              No_file \<Rightarrow> Inr Map.empty
            | Empty_file \<Rightarrow> Inr Map.empty
            | Corrupt_file \<Rightarrow> Inl UnpicklingError
            | Pickle_file data \<Rightarrow> Inr data) of
        Inl e \<Rightarrow> Inl e
      | Inr data \<Rightarrow>
          Inr (Pickle_file
                 (data(locations_hash p \<mapsto> (inter_product_distances p, inter_product_paths p)))))"

text \<open>
  \<^verbatim>\<open>__init__\<close>. The image read and the SHA-1 of \<^verbatim>\<open>str(locations)\<close> are inputs: \<open>img\<close> is
  the array \<^verbatim>\<open>skimage.io.imread\<close> returned, \<open>sha1\<close> the hash function. The result is the
  planner together with the cache file as the constructor leaves it.
\<close>

definition init ::
  "router \<Rightarrow> (coord list \<Rightarrow> string) \<Rightarrow> 8 word list list \<Rightarrow> coord list \<Rightarrow> cache_file
     \<Rightarrow> py_error + (planner \<times> cache_file)" where
  "init rta sha1 img locations f =
     (let p = \<lparr>map_arr = cost_map img, product_locations = locations,
                locations_hash = sha1 locations, num_products = length locations,
                inter_product_distances = [], inter_product_paths = Map.empty,
                dummy_id = None\<rparr> in
      case load_distance_and_paths p f of
        Inl e \<Rightarrow> Inl e
      | Inr (loaded, p1) \<Rightarrow>
          if loaded then Inr (p1, f)
          else (case calculate_inter_product_routes rta p1 of
                  Inl e \<Rightarrow> Inl e
                | Inr (d, t) \<Rightarrow>
                    (let p2 = p1\<lparr>inter_product_distances := d, inter_product_paths := t\<rparr> in
                     case store_distance_and_paths p2 f of
                       Inl e \<Rightarrow> Inl e
                     | Inr f' \<Rightarrow> Inr (p2, f'))))"

section \<open>The query\<close>

text \<open>
  Modelled from the spec: the attribute \<^verbatim>\<open>self.user_position_id\<close> is read by
  \<^verbatim>\<open>_calculate_user_product_routes\<close>, \<^verbatim>\<open>_insert_dummy_node\<close>,
  \<^verbatim>\<open>_map_to_selected_product_id_indices\<close> and \<^verbatim>\<open>get_path\<close> but assigned nowhere in the
  source. The spec fixes the current-position sentinel at node index 0, and \<^verbatim>\<open>get_path\<close>
  itself rolls the route with \<^verbatim>\<open>start_id=0\<close>.
\<close>

definition user_position_id :: int where
  "user_position_id = 0"

subsection \<open>Shared inner dictionaries\<close>

text \<open>
  \<^verbatim>\<open>paths = self.inter_product_paths.copy()\<close> is a shallow copy: the new outer dictionary
  holds references to the very inner dictionaries of the planner's table. The query
  therefore works on a store of inner dictionaries. \<open>Stored k\<close> is the inner dictionary
  the planner's table holds under key \<open>k\<close>, \<open>Fresh\<close> the one \<^verbatim>\<open>dict()\<close> allocates in
  \<^verbatim>\<open>_calculate_user_product_routes\<close> (the only allocation of a query).
\<close>

datatype dict_ref = Stored int | Fresh

type_synonym heap = "dict_ref \<Rightarrow> inner_dict"
type_synonym outer_dict = "int \<rightharpoonup> dict_ref"

definition heap_of :: "path_table \<Rightarrow> heap" where
  "heap_of t r =
     (case r of
        Stored k \<Rightarrow> (case t k of None \<Rightarrow> Map.empty | Some d \<Rightarrow> d)
      | Fresh \<Rightarrow> Map.empty)"

definition outer_of :: "path_table \<Rightarrow> outer_dict" where
  "outer_of t k = (case t k of None \<Rightarrow> None | Some d \<Rightarrow> Some (Stored k))"

definition deref :: "outer_dict \<Rightarrow> heap \<Rightarrow> path_table" where
  "deref od h k = (case od k of None \<Rightarrow> None | Some r \<Rightarrow> Some (h r))"

text \<open>The planner as the store leaves it: its own outer dictionary, read through the store.\<close>

definition planner_after :: "planner \<Rightarrow> heap \<Rightarrow> planner" where
  "planner_after p h =
     p\<lparr>inter_product_paths := deref (outer_of (inter_product_paths p)) h\<rparr>"

subsection \<open>Distances and paths from the current position\<close>

text \<open>
  \<^verbatim>\<open>_calculate_user_product_routes\<close>: the loop over \<^verbatim>\<open>enumerate(self.product_locations)\<close>
  with \<^verbatim>\<open>prod_id += 1\<close>. \<^verbatim>\<open>dists\<close> is a copy of a list of tuples, so it is a value;
  \<^verbatim>\<open>paths[self.user_position_id][prod_id] = path\<close> writes through the reference the outer
  dictionary holds.
\<close>

fun user_product_loop ::
  "router \<Rightarrow> grid \<Rightarrow> coord \<Rightarrow> outer_dict \<Rightarrow> (nat \<times> coord) list \<Rightarrow> dist list \<times> heap
     \<Rightarrow> heap \<times> (py_error + dist list)" where
  "user_product_loop rta g user_loc paths [] (dists, h) = (h, Inr dists)"
| "user_product_loop rta g user_loc paths ((i, loc_prod) # rest) (dists, h) =
     (let prod_id = int i + 1 in
      case rta g user_loc loc_prod of
        Inl e \<Rightarrow> (h, Inl e)
      | Inr (pth, cost) \<Rightarrow>
          (case paths user_position_id of
             None \<Rightarrow> (h, Inl KeyError)
           | Some r \<Rightarrow>
               user_product_loop rta g user_loc paths rest
                 (dists @ [(user_position_id, prod_id, cost)], h(r := (h r)(prod_id \<mapsto> pth)))))"

definition calculate_user_product_routes ::
  "router \<Rightarrow> planner \<Rightarrow> coord \<Rightarrow> heap \<times> (py_error + (dist list \<times> outer_dict))" where
  "calculate_user_product_routes rta p user_loc =
     (let paths = outer_of (inter_product_paths p);
          h = heap_of (inter_product_paths p);
          dists = inter_product_distances p;
          paths1 = paths(user_position_id \<mapsto> Fresh);
          h1 = h(Fresh := Map.empty) in
      case user_product_loop rta (map_arr p) user_loc paths1
             (List.enumerate 0 (product_locations p)) (dists, h1) of
        (h2, Inl e) \<Rightarrow> (h2, Inl e)
      | (h2, Inr dists2) \<Rightarrow> (h2, Inr (dists2, paths1)))"

subsection \<open>The optimizer's graph\<close>

text \<open>
  \<^verbatim>\<open>_get_max_index_value_in_dists\<close> (\<^verbatim>\<open>np.max\<close> of an empty list raises \<^verbatim>\<open>ValueError\<close>) and
  \<^verbatim>\<open>_get_indices_in_dist\<close> (a list made from a set: only membership is ever asked of it).
\<close>

definition get_max_index_value_in_dists :: "dist list \<Rightarrow> py_error + int" where
  "get_max_index_value_in_dists dists =
     (case map (\<lambda>(a, b, c). max a b) dists of
        [] \<Rightarrow> Inl ValueError
      | x # xs \<Rightarrow> Inr (fold max xs x))"

definition get_indices_in_dist :: "dist list \<Rightarrow> int list" where
  "get_indices_in_dist dists = remdups (map (\<lambda>(a, b, c). a) dists @ map (\<lambda>(a, b, c). b) dists)"

text \<open>\<^verbatim>\<open>list.index\<close>: the first position of an element (asked only of members below).\<close>

fun index_of :: "'a list \<Rightarrow> 'a \<Rightarrow> nat" where
  "index_of [] x = 0"
| "index_of (y # ys) x = (if y = x then 0 else Suc (index_of ys x))"

text \<open>\<^verbatim>\<open>_filter_dists\<close>: keep the edges between selected ids, renamed to list positions.\<close>

definition filter_dists :: "int list \<Rightarrow> dist list \<Rightarrow> dist list" where
  "filter_dists selected_product_ids dist_list =
     map (\<lambda>(src, target, d).
            (int (index_of selected_product_ids src), int (index_of selected_product_ids target), d))
       (filter (\<lambda>(src, target, d). src \<in> set selected_product_ids \<and> target \<in> set selected_product_ids)
          dist_list)"

text \<open>\<^verbatim>\<open>_insert_dummy_node\<close>; it also assigns \<^verbatim>\<open>self.dummy_id\<close>.\<close>

definition insert_dummy_node :: "planner \<Rightarrow> dist list \<Rightarrow> int \<Rightarrow> planner \<times> (py_error + dist list)" where
  "insert_dummy_node p dists end_id =
     (if end_id \<notin> set (get_indices_in_dist dists) then (p, Inl AssertionError)
      else (case get_max_index_value_in_dists dists of
              Inl e \<Rightarrow> (p, Inl e)
            | Inr m \<Rightarrow>
                (p\<lparr>dummy_id := Some (m + 1)\<rparr>,
                 Inr (dists @ [(user_position_id, m + 1, 1), (m + 1, end_id, 1)]))))"

text \<open>
  \<^verbatim>\<open>_do_tsp\<close>: the stable sort by first component, the node count, and the call of the
  heuristic solver, whose exceptions are raised again.
\<close>

definition do_tsp :: "solver \<Rightarrow> dist list \<Rightarrow> py_error + int list" where
  "do_tsp tsp dist_list =
     (let sorted_list = sort_key (\<lambda>(a, b, c). a) dist_list in
      case get_max_index_value_in_dists sorted_list of
        Inl e \<Rightarrow> Inl e
      | Inr m \<Rightarrow> tsp sorted_list (m + 1))"

subsection \<open>From the tour to the route\<close>

text \<open>Python list indexing: a negative index counts from the end, out of range raises.\<close>

definition py_get :: "'a list \<Rightarrow> int \<Rightarrow> py_error + 'a" where
  "py_get xs i =
     (if 0 \<le> i \<and> i < int (length xs) then Inr (xs ! nat i)
      else if i < 0 \<and> - int (length xs) \<le> i then Inr (xs ! nat (int (length xs) + i))
      else Inl IndexError)"

fun collect :: "('a \<Rightarrow> py_error + 'b) \<Rightarrow> 'a list \<Rightarrow> py_error + 'b list" where
  "collect f [] = Inr []"
| "collect f (x # xs) =
     (case f x of
        Inl e \<Rightarrow> Inl e
      | Inr y \<Rightarrow> (case collect f xs of Inl e \<Rightarrow> Inl e | Inr ys \<Rightarrow> Inr (y # ys)))"

text \<open>\<^verbatim>\<open>route.argmax()\<close>: the first position of the largest element.\<close>

definition argmax :: "int list \<Rightarrow> nat" where
  "argmax route = (case route of [] \<Rightarrow> 0 | x # xs \<Rightarrow> index_of route (fold max xs x))"

text \<open>\<^verbatim>\<open>_map_to_selected_product_id_indices\<close>.\<close>

definition map_to_selected_product_id_indices :: "int list \<Rightarrow> int list \<Rightarrow> py_error + int list" where
  "map_to_selected_product_id_indices selected_product_ids route =
     (case selected_product_ids of
        [] \<Rightarrow> Inl IndexError
      | s0 # _ \<Rightarrow>
          if s0 \<noteq> user_position_id then Inl AssertionError
          else if route = [] then Inl ValueError
          else collect (py_get selected_product_ids)
                 (filter (\<lambda>route_point. route_point \<noteq> - 1) (route[argmax route := - 1])))"

text \<open>
  \<^verbatim>\<open>_roll_route\<close>: \<^verbatim>\<open>np.roll(route, -k)\<close> rotates to the left by \<open>k\<close>;
  \<^verbatim>\<open>np.flip(np.roll(route, -1))\<close> rotates by one and reverses.
\<close>

definition roll_route :: "int \<Rightarrow> int \<Rightarrow> int list \<Rightarrow> py_error + int list" where
  "roll_route start_id end_id route =
     (if start_id \<notin> set route then Inl ValueError
      else (let route1 = rotate (index_of route start_id) route in
            if length route1 < 2 then Inl IndexError
            else if route1 ! 1 = end_id then Inr (rev (rotate 1 route1))
            else Inr route1))"

text \<open>
  \<^verbatim>\<open>_route_to_path\<close>. \<open>segment\<close> is the body of the loop: \<^verbatim>\<open>paths[start][end]\<close>, and on
  \<^verbatim>\<open>KeyError\<close> the reversed \<^verbatim>\<open>paths[end][start]\<close>, whose own \<^verbatim>\<open>KeyError\<close> is not caught.
\<close>

definition segment :: "path_table \<Rightarrow> int \<Rightarrow> int \<Rightarrow> py_error + path" where
  "segment paths start target =
     (case (case paths start of None \<Rightarrow> None | Some d \<Rightarrow> d target) of
        Some path_part \<Rightarrow> Inr path_part
      | None \<Rightarrow>
          (case paths target of
             None \<Rightarrow> Inl KeyError
           | Some d \<Rightarrow> (case d start of None \<Rightarrow> Inl KeyError | Some path_part \<Rightarrow> Inr (rev path_part))))"

fun route_to_path_loop :: "path_table \<Rightarrow> int \<Rightarrow> int list \<Rightarrow> path \<Rightarrow> py_error + path" where
  "route_to_path_loop paths start [] pth = Inr pth"
| "route_to_path_loop paths start (target # rest) pth =
     (case segment paths start target of
        Inl e \<Rightarrow> Inl e
      | Inr path_part \<Rightarrow> route_to_path_loop paths target rest (pth @ path_part))"

definition route_to_path :: "int list \<Rightarrow> path_table \<Rightarrow> py_error + path" where
  "route_to_path route paths =
     (case route of
        [] \<Rightarrow> Inl IndexError
      | start # targets \<Rightarrow> route_to_path_loop paths start targets [])"

subsection \<open>The query itself\<close>

text \<open>
  \<^verbatim>\<open>get_path\<close>. The result is the planner as the call leaves it (also when the call
  raises) and the returned pair of path and route, or the exception.
\<close>

definition get_path ::
  "router \<Rightarrow> solver \<Rightarrow> planner \<Rightarrow> coord \<Rightarrow> int list \<Rightarrow> int
     \<Rightarrow> planner \<times> (py_error + (path \<times> int list))" where
  "get_path rta tsp p user_loc selected_product_ids end_at_id =
     (if end_at_id \<notin> set selected_product_ids then (p, Inl AssertionError)
      else (let end_idx = int (index_of selected_product_ids end_at_id) in
        if num_products p = 0 then (p, Inr ([], []))
        else (let selected =
                    (if user_position_id \<notin> set selected_product_ids
                     then user_position_id # selected_product_ids
                     else selected_product_ids) in
          case calculate_user_product_routes rta p user_loc of
            (h, Inl e) \<Rightarrow> (planner_after p h, Inl e)
          | (h, Inr (dist_list, paths)) \<Rightarrow>
              (case insert_dummy_node (planner_after p h) (filter_dists selected dist_list) end_idx of
                 (p1, Inl e) \<Rightarrow> (p1, Inl e)
               | (p1, Inr dist_list1) \<Rightarrow>
                   (p1,
                    case do_tsp tsp dist_list1 of
                      Inl e \<Rightarrow> Inl e
                    | Inr route \<Rightarrow>
                        (case map_to_selected_product_id_indices selected route of
                           Inl e \<Rightarrow> Inl e
                         | Inr route1 \<Rightarrow>
                             (case roll_route 0 end_idx route1 of
                                Inl e \<Rightarrow> Inl e
                              | Inr rolled_route \<Rightarrow>
                                  (case route_to_path rolled_route (deref paths h) of
                                     Inl e \<Rightarrow> Inl e
                                   | Inr pth \<Rightarrow> Inr (pth, rolled_route)))))))))"

section \<open>Inputs of the worked examples\<close>

text \<open>
  A router and a hash function that stand in for the library calls where a statement
  below is evaluated on concrete data: the router answers every search with the two
  endpoints as path and cost 1, the hash function gives every list the same key.
\<close>

definition example_router :: router where
  "example_router g s e = Inr ([s, e], 1)"

definition example_hash :: "coord list \<Rightarrow> string" where
  "example_hash locations = ''7f''"

definition example_img :: "8 word list list" where
  "example_img = [[255, 255, 255], [255, 0, 200], [255, 255, 255]]"

definition example_locations :: "coord list" where
  "example_locations = [(0, 0), (0, 2), (2, 2)]"

definition example_planner :: planner where
  "example_planner =
     fst (projr (init example_router example_hash example_img example_locations No_file))"

definition example_file :: cache_file where
  "example_file =
     snd (projr (init example_router example_hash example_img example_locations No_file))"

definition example_empty_planner :: planner where
  "example_empty_planner =
     fst (projr (init example_router example_hash example_img [] No_file))"

definition example_empty_file :: cache_file where
  "example_empty_file =
     snd (projr (init example_router example_hash example_img [] No_file))"

text \<open>
  A solver that answers with the tour \<open>0, 4, 1, 2, 3\<close>: for a query of three stops it puts
  the dummy node 4 between node 0 and node 1.
\<close>

definition example_solver :: solver where
  "example_solver dist_list n = Inr [0, 4, 1, 2, 3]"

text \<open>
  The edge list a query for the stops \<open>1, 2, 3\<close> of the example planner hands to the
  solver when every search costs 1, and a solver that answers only to that list and to
  the node count 5, with the tour \<open>3, 2, 1, 4, 0\<close>.
\<close>

definition example_graph :: "dist list" where
  "example_graph =
     [(0, 1, 1), (0, 2, 1), (0, 3, 1), (0, 4, 1), (1, 2, 1), (1, 3, 1), (2, 3, 1), (4, 1, 1)]"

definition example_checking_solver :: solver where
  "example_checking_solver dist_list n =
     (if dist_list = example_graph \<and> n = 5 then Inr [3, 2, 1, 4, 0] else Inl SolverError)"

text \<open>A table of segments with both directions of lookup in reach.\<close>

definition example_table :: path_table where
  "example_table = [1 \<mapsto> [2 \<mapsto> [(0, 0), (0, 1)], 3 \<mapsto> [(0, 0), (1, 1), (2, 2)]],
                    2 \<mapsto> [3 \<mapsto> [(0, 1), (1, 2), (2, 2)]]]"

section \<open>Definitions after the words of the specification\<close>

text \<open>
  The specification's stitching of the per-pair segments: all segments in order, the
  first coordinate of every segment after the first left out. It is stated here only to
  be compared with \<open>route_to_path\<close>.
\<close>

fun spec_stitch :: "path list \<Rightarrow> path" where
  "spec_stitch [] = []"
| "spec_stitch (s # ss) = s @ concat (map tl ss)"

text \<open>
  The pairs the specification has the precomputation search: every unordered pair of
  stop indices \<open>i < j\<close> among \<open>1, \<dots>, n\<close>, each once, in the order of the two loops.
\<close>

definition all_pairs :: "nat \<Rightarrow> (nat \<times> nat) list" where
  "all_pairs n = concat (map (\<lambda>i. map (\<lambda>j. (i, j)) [Suc i..<Suc n]) [1..<n])"

section \<open>Node indices of the stored data\<close>






section \<open>Properties of the cost grid\<close>

lemma uint_byte_le: "uint (v :: 8 word) \<le> 255"
  using uint_bounded [of v] by simp

lemma uint_255_minus: "uint (255 - v :: 8 word) = 255 - uint v"
  using uint_byte_le [of v] by (simp add: uint_sub_if')

lemma cost_cell_uint:
  "uint (clip (255 - v) 1 255) = max 1 (min 255 (255 - uint (v :: 8 word)))"
  using uint_byte_le [of v] uint_ge_0 [of v]
  by (simp add: clip_def min_def max_def word_le_def uint_255_minus)

section \<open>What a query leaves of the planner\<close>

lemma user_product_loop_stored:
  "paths user_position_id = Some Fresh \<Longrightarrow>
   fst (user_product_loop rta g u paths xs (dists, h)) (Stored k) = h (Stored k)"
proof (induction xs arbitrary: dists h)
  case Nil
  then show ?case by simp
next
  case (Cons x xs)
  obtain i loc where x: "x = (i, loc)" by (cases x)
  show ?case
  proof (cases "rta g u loc")
    case (Inl e)
    then show ?thesis by (simp add: x)
  next
    case (Inr r)
    obtain pth cost where r: "r = (pth, cost)" by (cases r)
    show ?thesis
      using Cons.IH [OF Cons.prems] Cons.prems by (simp add: x Inr r Let_def)
  qed
qed

lemma calculate_user_product_routes_stored:
  "fst (calculate_user_product_routes rta p u) (Stored k) = heap_of (inter_product_paths p) (Stored k)"
proof -
  let ?paths = "(outer_of (inter_product_paths p))(user_position_id \<mapsto> Fresh)"
  let ?h = "(heap_of (inter_product_paths p))(Fresh := Map.empty)"
  let ?loop = "user_product_loop rta (map_arr p) u ?paths (List.enumerate 0 (product_locations p))
                 (inter_product_distances p, ?h)"
  have "fst (calculate_user_product_routes rta p u) = fst ?loop"
    by (cases ?loop rule: prod.exhaust [where 'a = heap]) (auto simp: calculate_user_product_routes_def Let_def split: sum.splits)
  moreover have "fst ?loop (Stored k) = ?h (Stored k)"
    by (rule user_product_loop_stored) simp
  ultimately show ?thesis by simp
qed

lemma deref_heap_of: 
  assumes "\<And>k. h (Stored k) = heap_of t (Stored k)"
  shows "deref (outer_of t) h = t"
proof
  fix k show "deref (outer_of t) h k = t k"
    using assms [of k] by (cases "t k") (simp_all add: deref_def outer_of_def heap_of_def)
qed

lemma planner_after_user_routes:
  "planner_after p (fst (calculate_user_product_routes rta p u)) = p"
  by (simp add: planner_after_def deref_heap_of calculate_user_product_routes_stored)

lemma insert_dummy_node_planner:
  "fst (insert_dummy_node q d e) = q \<or> (\<exists>v. fst (insert_dummy_node q d e) = q\<lparr>dummy_id := v\<rparr>)"
  by (auto simp: insert_dummy_node_def split: sum.splits)

lemma get_path_planner:
  "fst (get_path rta tsp p u sel e) = p \<or> (\<exists>v. fst (get_path rta tsp p u sel e) = p\<lparr>dummy_id := v\<rparr>)"
proof -
  obtain h r where c: "calculate_user_product_routes rta p u = (h, r)"
    by (cases "calculate_user_product_routes rta p u")
  have pa: "planner_after p h = p"
    using planner_after_user_routes [of p rta u] by (simp add: c)
  show ?thesis
  proof (cases r)
    case (Inl err)
    then show ?thesis by (simp add: get_path_def Let_def c pa)
  next
    case (Inr dp)
    obtain dl paths where dp: "dp = (dl, paths)" by (cases dp)
    let ?sel = "if user_position_id \<notin> set sel then user_position_id # sel else sel"
    let ?ins = "insert_dummy_node p (filter_dists ?sel dl) (int (index_of sel e))"
    obtain q r1 where ins: "?ins = (q, r1)" by (cases ?ins)
    have q: "q = p \<or> (\<exists>v. q = p\<lparr>dummy_id := v\<rparr>)"
      using insert_dummy_node_planner [of p "filter_dists ?sel dl" "int (index_of sel e)"]
      by (simp add: ins)
    have "fst (get_path rta tsp p u sel e) = p \<or> fst (get_path rta tsp p u sel e) = q"
      using ins by (cases r1) (simp_all add: get_path_def Let_def c pa Inr dp)
    then show ?thesis using q by auto
  qed
qed

section \<open>The constructor\<close>

lemma load_planner_fields:
  assumes "load_distance_and_paths p f = Inr (b, q)"
  shows "map_arr q = map_arr p \<and> product_locations q = product_locations p \<and>
         num_products q = num_products p \<and> locations_hash q = locations_hash p \<and>
         dummy_id q = dummy_id p"
  using assms
  by (cases f) (auto simp: load_distance_and_paths_def split: option.splits)

lemma init_fields:
  assumes "init rta sha1 img locations f = Inr (p, f')"
  shows "map_arr p = cost_map img \<and> product_locations p = locations \<and>
         num_products p = length locations \<and> locations_hash p = sha1 locations"
proof -
  let ?p0 = "\<lparr>map_arr = cost_map img, product_locations = locations,
                locations_hash = sha1 locations, num_products = length locations,
                inter_product_distances = [], inter_product_paths = Map.empty,
                dummy_id = None\<rparr>"
  obtain b p1 where l: "load_distance_and_paths ?p0 f = Inr (b, p1)"
    using assms by (auto simp: init_def Let_def split: sum.splits)
  have f1: "map_arr p1 = cost_map img \<and> product_locations p1 = locations \<and>
         num_products p1 = length locations \<and> locations_hash p1 = sha1 locations"
    using load_planner_fields [OF l] by simp
  show ?thesis
  proof (cases b)
    case True
    then have "p = p1" using assms l by (simp add: init_def Let_def)
    then show ?thesis using f1 by simp
  next
    case False
    then obtain d t where "p = p1\<lparr>inter_product_distances := d, inter_product_paths := t\<rparr>"
      using assms l by (auto simp: init_def Let_def split: sum.splits)
    then show ?thesis using f1 by simp
  qed
qed

lemma example_init:
  "init example_router example_hash example_img example_locations No_file =
     Inr (example_planner, example_file)"
proof -
  have "\<not> isl (init example_router example_hash example_img example_locations No_file)"
    by code_simp
  then show ?thesis
    unfolding example_planner_def example_file_def by (cases "init example_router example_hash example_img example_locations No_file") simp_all
qed

lemma get_path_map_arr: "map_arr (fst (get_path rta tsp p u sel e)) = map_arr p"
  using get_path_planner [of rta tsp p u sel e] by auto

lemma example_empty_init:
  "init example_router example_hash example_img [] No_file =
     Inr (example_empty_planner, example_empty_file)"
proof -
  have "\<not> isl (init example_router example_hash example_img [] No_file)"
    by code_simp
  then show ?thesis
    unfolding example_empty_planner_def example_empty_file_def
    by (cases "init example_router example_hash example_img [] No_file") simp_all
qed

section \<open>The empty registry\<close>

text \<open>
  Claim C8. A planner constructed over an empty list of locations answers every query
  whose end id is among the requested ids with the pair of an empty path and an empty
  route, raises nothing and stays as it was.
\<close>

theorem get_path_empty_registry:
  assumes "init rta sha1 img [] f = Inr (p, f')"
      and "end_at_id \<in> set selected_product_ids"
  shows "get_path rta' tsp p user_loc selected_product_ids end_at_id = (p, Inr ([], []))"
proof -
  have "num_products p = 0" using init_fields [OF assms(1)] by simp
  then show ?thesis using assms(2) by (simp add: get_path_def)
qed

theorem get_path_empty_registry_witness:
  "get_path example_router example_solver example_empty_planner (2, 0) [4, 9] 9 =
     (example_empty_planner, Inr ([], []))"
  using get_path_empty_registry [OF example_empty_init, of 9 "[4, 9]"] by simp

section \<open>The cells of the cost grid\<close>

text \<open>
  Claim C9. Every cell of the grid of a constructed planner is the clamp of 255 minus
  the intensity of the image cell to the range from 1 to 255, read as numbers; it is at
  least 1; a cell that is at least as bright costs at most as much; and a query leaves
  the grid as it was.
\<close>

theorem cost_grid_cells:
  assumes "init rta sha1 img locations f = Inr (p, f')"
      and "r < length img" and "c < length (img ! r)"
  shows "uint (map_arr p ! r ! c) = max 1 (min 255 (255 - uint (img ! r ! c)))
       \<and> 1 \<le> uint (map_arr p ! r ! c)
       \<and> (\<forall>r' c'. r' < length img \<longrightarrow> c' < length (img ! r') \<longrightarrow> img ! r ! c \<le> img ! r' ! c'
            \<longrightarrow> map_arr p ! r' ! c' \<le> map_arr p ! r ! c)
       \<and> map_arr (fst (get_path rta' tsp p user_loc selected_product_ids end_at_id)) = map_arr p"
proof -
  have m: "map_arr p = cost_map img" using init_fields [OF assms(1)] by simp
  have cell: "\<And>a b. a < length img \<Longrightarrow> b < length (img ! a) \<Longrightarrow>
      uint (map_arr p ! a ! b) = max 1 (min 255 (255 - uint (img ! a ! b)))"
    by (simp add: m cost_map_def cost_cell_uint)
  have mono: "map_arr p ! r' ! c' \<le> map_arr p ! r ! c"
    if "r' < length img" "c' < length (img ! r')" "img ! r ! c \<le> img ! r' ! c'" for r' c'
  proof -
    have "uint (img ! r ! c) \<le> uint (img ! r' ! c')" using that(3) by (simp add: word_le_def)
    then have "uint (map_arr p ! r' ! c') \<le> uint (map_arr p ! r ! c)"
      using cell [OF that(1,2)] cell [OF assms(2,3)] by simp
    then show ?thesis by (simp add: word_le_def)
  qed
  show ?thesis using cell [OF assms(2,3)] mono get_path_map_arr by simp
qed

theorem cost_grid_cells_witness:
  "uint (map_arr example_planner ! 1 ! 2) = 55 \<and> 1 \<le> uint (map_arr example_planner ! 1 ! 2) \<and>
   uint (map_arr example_planner ! 1 ! 1) = 255 \<and> uint (map_arr example_planner ! 0 ! 0) = 1"
  using cost_grid_cells [OF example_init, of 1 2]
        cost_grid_cells [OF example_init, of 1 1]
        cost_grid_cells [OF example_init, of 0 0]
  by (simp add: example_img_def)

section \<open>The frame of a query\<close>

text \<open>
  Claim C10. After every call of \<^verbatim>\<open>get_path\<close>, whether it returns or raises, the
  planner's list of inter-product distances and its table of inter-product paths, read
  through the store of inner dictionaries the query shares with it, are what they were
  before the call. The query has no access to the cache file.
\<close>

theorem get_path_keeps_tables:
  "inter_product_distances (fst (get_path rta tsp p user_loc selected_product_ids end_at_id)) =
     inter_product_distances p
   \<and> inter_product_paths (fst (get_path rta tsp p user_loc selected_product_ids end_at_id)) =
     inter_product_paths p"
  using get_path_planner [of rta tsp p user_loc selected_product_ids end_at_id] by auto

theorem get_path_keeps_tables_witness:
  "inter_product_distances
     (fst (get_path example_router example_solver example_planner (2, 0) [1, 2, 3] 2)) =
     inter_product_distances example_planner
   \<and> inter_product_paths
     (fst (get_path example_router example_solver example_planner (2, 0) [1, 2, 3] 2)) =
     inter_product_paths example_planner"
  using get_path_keeps_tables [of example_router example_solver example_planner "(2, 0)" "[1, 2, 3]" 2]
  by simp

section \<open>Stitching the route\<close>

lemma route_to_path_loop_concat:
  "collect (\<lambda>(a, b). segment paths a b) (zip (start # targets) targets) = Inr segs \<Longrightarrow>
   route_to_path_loop paths start targets acc = Inr (acc @ concat segs)"
proof (induction targets arbitrary: start acc segs)
  case Nil
  then show ?case by auto
next
  case (Cons t ts)
  from Cons.prems obtain s rest where
    s: "segment paths start t = Inr s" and
    rest: "collect (\<lambda>(a, b). segment paths a b) (zip (t # ts) ts) = Inr rest" and
    segs: "segs = s # rest"
    by (auto split: sum.splits)
  show ?case using Cons.IH [OF rest, of "acc @ s"] by (simp add: s segs)
qed

text \<open>
  Claim C2, as amended. For a non-empty route whose consecutive pairs all have a segment
  (the stored one for the pair, or else the reversed stored one for the swapped pair),
  \<^verbatim>\<open>_route_to_path\<close> returns the plain concatenation of the segments in order. No
  coordinate is left out: where one segment ends at the coordinate the next begins
  with, that coordinate stands twice in the result.
\<close>

theorem route_to_path_concatenates:
  assumes "route \<noteq> []"
      and "collect (\<lambda>(a, b). segment paths a b) (zip route (tl route)) = Inr segs"
  shows "route_to_path route paths = Inr (concat segs)"
proof -
  obtain start targets where r: "route = start # targets" using assms(1) by (cases route) auto
  show ?thesis using route_to_path_loop_concat [of paths start targets segs "[]"] assms(2)
    by (simp add: r route_to_path_def)
qed

theorem route_to_path_concatenates_witness:
  "route_to_path [1, 2, 3] example_table = Inr [(0, 0), (0, 1), (0, 1), (1, 2), (2, 2)] \<and>
   route_to_path [1, 3, 2] example_table = Inr [(0, 0), (1, 1), (2, 2), (2, 2), (1, 2), (0, 1)]"
  using route_to_path_concatenates [of "[1, 2, 3]" example_table "[[(0, 0), (0, 1)], [(0, 1), (1, 2), (2, 2)]]"]
        route_to_path_concatenates [of "[1, 3, 2]" example_table "[[(0, 0), (1, 1), (2, 2)], [(2, 2), (1, 2), (0, 1)]]"]
  by (simp add: segment_def example_table_def)

text \<open>
  Claim C2 as stated fails: for the route \<open>1, 2, 3\<close> over the example table the junction
  \<open>(0, 1)\<close> stands twice in the result, which so differs from the stitching of the
  specification.
\<close>

theorem route_to_path_keeps_junction:
  "segment example_table 1 2 = Inr [(0, 0), (0, 1)] \<and>
   segment example_table 2 3 = Inr [(0, 1), (1, 2), (2, 2)] \<and>
   route_to_path [1, 2, 3] example_table = Inr [(0, 0), (0, 1), (0, 1), (1, 2), (2, 2)] \<and>
   route_to_path [1, 2, 3] example_table \<noteq>
     Inr (spec_stitch [[(0, 0), (0, 1)], [(0, 1), (1, 2), (2, 2)]])"
  by (simp add: route_to_path_def segment_def example_table_def)

section \<open>Loading the cache\<close>

lemma example_pair_routes:
  assumes "map_arr p = cost_map example_img" and "product_locations p = [(0, 0), (0, 2)]"
  shows "calculate_inter_product_routes example_router p =
           Inr ([(1, 2, 1)], [1 \<mapsto> [2 \<mapsto> [(0, 0), (0, 2)]]])"
  by (simp add: assms calculate_inter_product_routes_def enumerate_eq_zip
      raise_if_out_of_bounds_def out_of_bounds_def map_bounds_def cost_map_def example_img_def
      example_router_def upt_rec)

text \<open>
  Claim C3, as amended. When there is no cache file, or \<^verbatim>\<open>pickle.load\<close> ends in
  \<^verbatim>\<open>EOFError\<close> on it, or it holds a dictionary without an entry for the hash of the
  locations, the constructor raises nothing on account of the cache: it runs the
  pairwise computation, and when that succeeds it keeps the result and writes it back
  under the hash beside the entries the file already had. (A file on which
  \<^verbatim>\<open>pickle.load\<close> raises anything else is not covered.)
\<close>

theorem init_cache_miss:
  assumes "f = No_file \<or> f = Empty_file \<or> (\<exists>data. f = Pickle_file data \<and> data (sha1 locations) = None)"
  shows "init rta sha1 img locations f =
     (case calculate_inter_product_routes rta
             \<lparr>map_arr = cost_map img, product_locations = locations,
              locations_hash = sha1 locations, num_products = length locations,
              inter_product_distances = [], inter_product_paths = Map.empty,
              dummy_id = None\<rparr> of
        Inl e \<Rightarrow> Inl e
      | Inr (d, t) \<Rightarrow>
          Inr (\<lparr>map_arr = cost_map img, product_locations = locations,
                locations_hash = sha1 locations, num_products = length locations,
                inter_product_distances = d, inter_product_paths = t,
                dummy_id = None\<rparr>,
               Pickle_file ((case f of Pickle_file data \<Rightarrow> data | _ \<Rightarrow> Map.empty)
                              (sha1 locations \<mapsto> (d, t)))))"
  using assms
  by (auto simp: init_def load_distance_and_paths_def store_distance_and_paths_def Let_def
           split: sum.splits)

theorem init_cache_miss_witness:
  "init example_router example_hash example_img [(0, 0), (0, 2)]
       (Pickle_file [''00'' \<mapsto> ([], Map.empty)]) =
     Inr (\<lparr>map_arr = cost_map example_img, product_locations = [(0, 0), (0, 2)],
           locations_hash = ''7f'', num_products = 2,
           inter_product_distances = [(1, 2, 1)],
           inter_product_paths = [1 \<mapsto> [2 \<mapsto> [(0, 0), (0, 2)]]], dummy_id = None\<rparr>,
          Pickle_file [''00'' \<mapsto> ([], Map.empty),
                       ''7f'' \<mapsto> ([(1, 2, 1)], [1 \<mapsto> [2 \<mapsto> [(0, 0), (0, 2)]]])]) \<and>
   init example_router example_hash example_img [(0, 0), (0, 2)] Empty_file =
     Inr (\<lparr>map_arr = cost_map example_img, product_locations = [(0, 0), (0, 2)],
           locations_hash = ''7f'', num_products = 2,
           inter_product_distances = [(1, 2, 1)],
           inter_product_paths = [1 \<mapsto> [2 \<mapsto> [(0, 0), (0, 2)]]], dummy_id = None\<rparr>,
          Pickle_file [''7f'' \<mapsto> ([(1, 2, 1)], [1 \<mapsto> [2 \<mapsto> [(0, 0), (0, 2)]]])])"
  using init_cache_miss [of "Pickle_file [''00'' \<mapsto> ([], Map.empty)]" example_hash
          "[(0, 0), (0, 2)]" example_router example_img]
        init_cache_miss [of Empty_file example_hash "[(0, 0), (0, 2)]" example_router example_img]
  by (simp add: example_hash_def example_pair_routes)

text \<open>
  Claim C3 as stated fails: on a cache file whose content is no pickle, so that
  \<^verbatim>\<open>pickle.load\<close> raises \<^verbatim>\<open>UnpicklingError\<close>, the constructor raises that error to its
  caller; only \<^verbatim>\<open>EOFError\<close> is caught.
\<close>

theorem init_corrupt_cache_raises:
  "init example_router example_hash example_img example_locations Corrupt_file = Inl UnpicklingError"
  by (simp add: init_def load_distance_and_paths_def)

section \<open>The pairwise precomputation\<close>

lemma inner_all:
  assumes "paths (int s) = Some d"
    and "\<forall>k < length ys. \<not> out_of_bounds g (ys ! k) \<and>
            rta g ls (ys ! k) = Inr (Pf (m + k), Cf (m + k)) \<and> 0 < Cf (m + k)"
  shows "inter_product_inner rta g s ls (List.enumerate m ys) (dists, paths) =
     Inr (dists @ map (\<lambda>k. (int s, int (k + (s + 1)), Cf k)) [m..<m + length ys],
          paths(int s \<mapsto> (\<lambda>b. if int (m + (s + 1)) \<le> b \<and> b < int (m + (s + 1) + length ys)
                                 then Some (Pf (nat b - (s + 1))) else d b)))"
  using assms
proof (induction ys arbitrary: m dists paths d)
  case Nil
  have "(\<lambda>b. if int (m + (s + 1)) \<le> b \<and> b < int (m + (s + 1) + length ([]::coord list))
               then Some (Pf (nat b - (s + 1))) else d b) = d"
    by (rule ext) (simp, linarith)
  moreover have "paths(int s \<mapsto> d) = paths" using Nil.prems(1) by (simp add: map_upd_triv)
  ultimately show ?case by (simp del: fun_upd_apply)
next
  case (Cons y ys)
  from Cons.prems(2) have y: "\<not> out_of_bounds g y" "rta g ls y = Inr (Pf m, Cf m)" "0 < Cf m"
    by force+
  let ?d = "d(int (m + (s + 1)) \<mapsto> Pf m)"
  let ?paths = "paths(int s \<mapsto> ?d)"
  have p: "?paths (int s) = Some ?d" by simp
  have rest: "\<forall>k < length ys. \<not> out_of_bounds g (ys ! k) \<and>
            rta g ls (ys ! k) = Inr (Pf (Suc m + k), Cf (Suc m + k)) \<and> 0 < Cf (Suc m + k)"
    using Cons.prems(2) by fastforce
  have ih: "inter_product_inner rta g s ls (List.enumerate (Suc m) ys)
              (dists @ [(int s, int (m + (s + 1)), Cf m)], ?paths) =
     Inr ((dists @ [(int s, int (m + (s + 1)), Cf m)]) @
            map (\<lambda>k. (int s, int (k + (s + 1)), Cf k)) [Suc m..<Suc m + length ys],
          ?paths(int s \<mapsto> (\<lambda>b. if int (Suc m + (s + 1)) \<le> b \<and> b < int (Suc m + (s + 1) + length ys)
                                 then Some (Pf (nat b - (s + 1))) else ?d b)))"
    by (rule Cons.IH [of ?paths ?d "Suc m", OF p rest])
  have lst: "[m..<m + length (y # ys)] = m # [Suc m..<Suc m + length ys]"
    by (simp add: upt_rec)
  have fn: "(\<lambda>b. if int (Suc m + (s + 1)) \<le> b \<and> b < int (Suc m + (s + 1) + length ys)
                   then Some (Pf (nat b - (s + 1))) else ?d b) =
            (\<lambda>b. if int (m + (s + 1)) \<le> b \<and> b < int (m + (s + 1) + length (y # ys))
                   then Some (Pf (nat b - (s + 1))) else d b)"
  proof
    fix b :: int
    show "(if int (Suc m + (s + 1)) \<le> b \<and> b < int (Suc m + (s + 1) + length ys)
                   then Some (Pf (nat b - (s + 1))) else ?d b) =
          (if int (m + (s + 1)) \<le> b \<and> b < int (m + (s + 1) + length (y # ys))
                   then Some (Pf (nat b - (s + 1))) else d b)"
    proof (cases "b = int (m + (s + 1))")
      case True
      then have "nat b - (s + 1) = m" by simp
      then show ?thesis using True by simp
    next
      case False
      then show ?thesis by auto
    qed
  qed
  have step: "inter_product_inner rta g s ls (List.enumerate m (y # ys)) (dists, paths) =
      inter_product_inner rta g s ls (List.enumerate (Suc m) ys)
              (dists @ [(int s, int (m + (s + 1)), Cf m)], ?paths)"
    using Cons.prems(1) y by (simp add: raise_if_out_of_bounds_def)
  show ?case
    unfolding step ih lst fn by (simp add: fun_eq_iff)
qed

lemma outer_all:
  fixes locs :: "coord list"
  assumes N: "N = length locs"
      and inb: "\<forall>l \<in> set locs. \<not> out_of_bounds g l"
      and rta: "\<forall>i j. 1 \<le> i \<and> i < j \<and> j \<le> N \<longrightarrow>
                  rta g (locs ! (i - 1)) (locs ! (j - 1)) = Inr (P i j, C i j) \<and> 0 < C i j"
      and n: "n = N - 1 - k"
  shows "inter_product_outer rta g locs (List.enumerate k (drop k (butlast locs))) (dists, paths) =
     Inr (dists @ concat (map (\<lambda>i. map (\<lambda>j. (int i, int j, C i j)) [Suc i..<Suc N]) [Suc k..<N]),
          (\<lambda>a. if int k < a \<and> a < int N
                then Some (\<lambda>b. if a < b \<and> b \<le> int N then Some (P (nat a) (nat b)) else None)
                else paths a))"
  using n
proof (induction n arbitrary: k dists paths)
  case 0
  then have k: "N - 1 \<le> k" by simp
  have a: "drop k (butlast locs) = []" using k by (simp add: N)
  have b: "[Suc k..<N] = []" using k by simp
  have c: "(\<lambda>a. if int k < a \<and> a < int N
                then Some (\<lambda>b. if a < b \<and> b \<le> int N then Some (P (nat a) (nat b)) else None)
                else paths a) = paths"
    using k by (auto simp: fun_eq_iff)
  show ?case unfolding a b c by simp
next
  case (Suc n)
  then have k: "Suc k < N" and n': "n = N - 1 - Suc k" by simp_all
  let ?s = "Suc k"
  let ?ys = "drop ?s locs"
  let ?row = "\<lambda>i. map (\<lambda>j. (int i, int j, C i j)) [Suc i..<Suc N]"
  let ?dict = "\<lambda>a b. if a < b \<and> b \<le> int N then Some (P (nat a) (nat b)) else None"
  have kb: "k < length (butlast locs)" using k by (simp add: N)
  have dr: "drop k (butlast locs) = locs ! k # drop ?s (butlast locs)"
    using Cons_nth_drop_Suc [OF kb] nth_butlast [OF kb] by simp
  have lk: "\<not> out_of_bounds g (locs ! k)" using inb k by (simp add: N)
  let ?paths1 = "paths(int ?s \<mapsto> Map.empty)"
  have hyp: "\<forall>j < length ?ys. \<not> out_of_bounds g (?ys ! j) \<and>
            rta g (locs ! k) (?ys ! j) = Inr (P ?s (0 + j + Suc ?s), C ?s (0 + j + Suc ?s)) \<and>
            0 < C ?s (0 + j + Suc ?s)"
  proof (intro allI impI)
    fix j assume j: "j < length ?ys"
    then have jn: "?s + j < N" by (simp add: N)
    have e: "?ys ! j = locs ! (?s + j)" using jn by (simp add: N)
    have "\<not> out_of_bounds g (locs ! (?s + j))" using inb jn by (simp add: N)
    moreover have "rta g (locs ! (?s - 1)) (locs ! (j + Suc ?s - 1)) =
        Inr (P ?s (j + Suc ?s), C ?s (j + Suc ?s)) \<and> 0 < C ?s (j + Suc ?s)"
      using rta jn by (intro rta [rule_format]) simp
    ultimately show "\<not> out_of_bounds g (?ys ! j) \<and>
            rta g (locs ! k) (?ys ! j) = Inr (P ?s (0 + j + Suc ?s), C ?s (0 + j + Suc ?s)) \<and>
            0 < C ?s (0 + j + Suc ?s)"
      by (simp add: e add.commute)
  qed
  have inner: "inter_product_inner rta g ?s (locs ! k) (List.enumerate 0 ?ys) (dists, ?paths1) =
     Inr (dists @ map (\<lambda>j. (int ?s, int (j + (?s + 1)), C ?s (j + Suc ?s))) [0..<0 + length ?ys],
          ?paths1(int ?s \<mapsto> (\<lambda>b. if int (0 + (?s + 1)) \<le> b \<and> b < int (0 + (?s + 1) + length ?ys)
                                 then Some (P ?s (nat b - (?s + 1) + Suc ?s)) else Map.empty b)))"
    using inner_all [of ?paths1 ?s Map.empty ?ys g rta "locs ! k"
        "\<lambda>j. P ?s (j + Suc ?s)" 0 "\<lambda>j. C ?s (j + Suc ?s)" dists] hyp
    by simp
  have len: "length ?ys = N - ?s" by (simp add: N)
  have row: "map (\<lambda>j. (int ?s, int (j + (?s + 1)), C ?s (j + Suc ?s))) [0..<0 + length ?ys] = ?row ?s"
  proof -
    have "[Suc ?s..<Suc N] = map (\<lambda>j. j + Suc ?s) [0..<N - ?s]"
      using k map_add_upt [of "Suc ?s" "N - ?s"] by (simp del: upt_Suc)
    then show ?thesis unfolding len by (simp add: comp_def del: upt_Suc)
  qed
  have dict: "(\<lambda>b. if int (0 + (?s + 1)) \<le> b \<and> b < int (0 + (?s + 1) + length ?ys)
                                 then Some (P ?s (nat b - (?s + 1) + Suc ?s)) else Map.empty b) =
              ?dict (int ?s)"
  proof
    fix b :: int
    show "(if int (0 + (?s + 1)) \<le> b \<and> b < int (0 + (?s + 1) + length ?ys)
                                 then Some (P ?s (nat b - (?s + 1) + Suc ?s)) else Map.empty b) =
          ?dict (int ?s) b"
    proof -
      have tot: "0 + (?s + 1) + length ?ys = Suc N" using k len by simp
      have c: "(int (0 + (?s + 1)) \<le> b \<and> b < int (0 + (?s + 1) + length ?ys)) =
               (int ?s < b \<and> b \<le> int N)"
        unfolding tot by auto
      show ?thesis
      proof (cases "int ?s < b \<and> b \<le> int N")
        case True
        have e: "nat b - (?s + 1) + Suc ?s = nat b" using True by linarith
        show ?thesis unfolding c if_P [OF True] e nat_int by simp
      next
        case False
        show ?thesis unfolding c if_not_P [OF False] by simp
      qed
    qed
  qed
  let ?paths2 = "paths(int ?s \<mapsto> ?dict (int ?s))"
  have inner': "inter_product_inner rta g ?s (locs ! k) (List.enumerate 0 ?ys) (dists, ?paths1) =
     Inr (dists @ ?row ?s, ?paths2)"
    unfolding inner row dict by simp
  have ih: "inter_product_outer rta g locs (List.enumerate ?s (drop ?s (butlast locs)))
       (dists @ ?row ?s, ?paths2) =
     Inr ((dists @ ?row ?s) @ concat (map ?row [Suc ?s..<N]),
          (\<lambda>a. if int ?s < a \<and> a < int N then Some (?dict a) else ?paths2 a))"
    by (rule Suc.IH [OF n'])
  have step: "inter_product_outer rta g locs (List.enumerate k (drop k (butlast locs))) (dists, paths) =
      inter_product_outer rta g locs (List.enumerate ?s (drop ?s (butlast locs))) (dists @ ?row ?s, ?paths2)"
    unfolding dr using lk inner' by (simp add: raise_if_out_of_bounds_def)
  have rows: "[Suc k..<N] = ?s # [Suc ?s..<N]" using k by (simp add: upt_rec)
  have fn: "(\<lambda>a. if int ?s < a \<and> a < int N then Some (?dict a) else ?paths2 a) =
            (\<lambda>a. if int k < a \<and> a < int N then Some (?dict a) else paths a)"
  proof
    fix a :: int
    show "(if int ?s < a \<and> a < int N then Some (?dict a) else ?paths2 a) =
          (if int k < a \<and> a < int N then Some (?dict a) else paths a)"
      using k by (cases "a = int ?s") auto
  qed
  show ?case unfolding step ih rows fn by simp
qed

lemma set_all_pairs: "set (all_pairs n) = {(i, j). 1 \<le> i \<and> i < j \<and> j \<le> n}"
proof -
  have "(a, b) \<in> set (all_pairs n)" if "1 \<le> a" "a < b" "b \<le> n" for a b
  proof -
    have "a \<in> {Suc 0..<n}" and "(a, b) \<in> Pair a ` {Suc a..<Suc n}" using that by auto
    then show ?thesis by (auto simp: all_pairs_def simp del: upt_Suc)
  qed
  moreover have "1 \<le> a \<and> a < b \<and> b \<le> n" if "(a, b) \<in> set (all_pairs n)" for a b
    using that by (auto simp: all_pairs_def simp del: upt_Suc)
  ultimately show ?thesis by auto
qed

lemma row_head: "x < n \<Longrightarrow> hd (map (Pair x) [Suc x..<Suc n]) = (x, Suc x)"
  by (simp add: upt_rec)

lemma distinct_all_pairs: "distinct (all_pairs n)"
  unfolding all_pairs_def
proof (rule distinct_concat)
  show "distinct (map (\<lambda>i. map (Pair i) [Suc i..<Suc n]) [1..<n])"
  proof -
    have "x = y" if "map (Pair x) [Suc x..<Suc n] = map (Pair y) [Suc y..<Suc n]" "x < n" "y < n"
      for x y :: nat
      using row_head [OF that(2)] row_head [OF that(3)] that(1) by simp
    then show ?thesis by (auto simp: distinct_map inj_on_def simp del: upt_Suc)
  qed
next
  fix ys assume "ys \<in> set (map (\<lambda>i. map (Pair i) [Suc i..<Suc n]) [1..<n])"
  then show "distinct ys" by (auto simp: distinct_map inj_on_def simp del: upt_Suc)
next
  fix ys zs
  assume "ys \<in> set (map (\<lambda>i. map (Pair i) [Suc i..<Suc n]) [1..<n])"
         "zs \<in> set (map (\<lambda>i. map (Pair i) [Suc i..<Suc n]) [1..<n])" "ys \<noteq> zs"
  then show "set ys \<inter> set zs = {}" by (auto simp del: upt_Suc)
qed

lemma sum_down: "m \<le> n \<Longrightarrow> 2 * sum_list (map (\<lambda>i. n - i) [n - m..<n]) = m * (m + 1)"
proof (induction m)
  case 0
  then show ?case by simp
next
  case (Suc m)
  then have "[n - Suc m..<n] = (n - Suc m) # [n - m..<n]"
    by (simp add: upt_rec Suc_diff_Suc)
  then show ?case using Suc by simp
qed

lemma length_all_pairs: "length (all_pairs n) = n * (n - 1) div 2"
proof (cases n)
  case 0
  then show ?thesis by (simp add: all_pairs_def)
next
  case (Suc m)
  have "length (all_pairs n) = sum_list (map (\<lambda>i. n - i) [1..<n])"
    by (simp add: all_pairs_def length_concat comp_def del: upt_Suc)
  moreover have "2 * sum_list (map (\<lambda>i. n - i) [n - m..<n]) = m * (m + 1)"
    using sum_down [of m n] Suc by simp
  ultimately show ?thesis using Suc by simp
qed

text \<open>
  Claim C7. When every registered location is in bounds and the search succeeds with a
  positive cost for every pair of locations \<open>i < j\<close>, \<^verbatim>\<open>_calculate_inter_product_routes\<close>
  returns one edge \<open>(i, j, cost)\<close> for each pair of \<open>all_pairs N\<close>, in that order, each from
  the one search made for the pair; these are the \<open>N (N - 1) / 2\<close> pairs \<open>1 \<le> i < j \<le> N\<close>,
  none twice; and the table holds the segment of a pair under outer key \<open>i\<close> and inner
  key \<open>j\<close> and nothing else, so no pair is stored in the other direction.
\<close>

theorem calculate_inter_product_routes_all_pairs:
  fixes p :: planner
  defines "N \<equiv> length (product_locations p)"
  assumes "\<forall>l \<in> set (product_locations p). \<not> out_of_bounds (map_arr p) l"
      and "\<forall>i j. 1 \<le> i \<and> i < j \<and> j \<le> N \<longrightarrow>
             rta (map_arr p) (product_locations p ! (i - 1)) (product_locations p ! (j - 1)) =
               Inr (P i j, C i j) \<and> 0 < C i j"
  shows "calculate_inter_product_routes rta p =
           Inr (map (\<lambda>(i, j). (int i, int j, C i j)) (all_pairs N),
                (\<lambda>a. if 0 < a \<and> a < int N
                      then Some (\<lambda>b. if a < b \<and> b \<le> int N then Some (P (nat a) (nat b)) else None)
                      else None))
       \<and> length (all_pairs N) = N * (N - 1) div 2
       \<and> distinct (all_pairs N)
       \<and> set (all_pairs N) = {(i, j). 1 \<le> i \<and> i < j \<and> j \<le> N}"
proof -
  have "inter_product_outer rta (map_arr p) (product_locations p)
          (List.enumerate 0 (drop 0 (butlast (product_locations p)))) ([], Map.empty) =
     Inr ([] @ concat (map (\<lambda>i. map (\<lambda>j. (int i, int j, C i j)) [Suc i..<Suc N]) [Suc 0..<N]),
          (\<lambda>a. if int 0 < a \<and> a < int N
                then Some (\<lambda>b. if a < b \<and> b \<le> int N then Some (P (nat a) (nat b)) else None)
                else Map.empty a))"
    by (rule outer_all [where k = 0 and dists = "[]" and paths = Map.empty and P = P and C = C
          and locs = "product_locations p" and g = "map_arr p" and rta = rta and N = N
          and n = "N - 1 - 0",
          OF N_def [THEN meta_eq_to_obj_eq] assms(2) assms(3) refl])
  moreover have "map (\<lambda>(i, j). (int i, int j, C i j)) (all_pairs N) =
      concat (map (\<lambda>i. map (\<lambda>j. (int i, int j, C i j)) [Suc i..<Suc N]) [Suc 0..<N])"
    by (simp add: all_pairs_def map_concat comp_def del: upt_Suc)
  ultimately show ?thesis
    by (simp add: calculate_inter_product_routes_def set_all_pairs distinct_all_pairs
        length_all_pairs del: upt_Suc)
qed

theorem calculate_inter_product_routes_all_pairs_witness:
  "calculate_inter_product_routes example_router example_planner =
     Inr ([(1, 2, 1), (1, 3, 1), (2, 3, 1)],
          (\<lambda>a. if 0 < a \<and> a < 3
                then Some (\<lambda>b. if a < b \<and> b \<le> 3
                                then Some [example_locations ! (nat a - 1), example_locations ! (nat b - 1)]
                                else None)
                else None))
   \<and> all_pairs 3 = [(1, 2), (1, 3), (2, 3)]"
proof -
  have f: "map_arr example_planner = cost_map example_img"
          "product_locations example_planner = example_locations"
    using init_fields [OF example_init] by simp_all
  have b: "\<forall>l \<in> set (product_locations example_planner).
             \<not> out_of_bounds (map_arr example_planner) l"
    by (simp add: f example_locations_def out_of_bounds_def map_bounds_def cost_map_def
        example_img_def)
  have r: "\<forall>i j. 1 \<le> i \<and> i < j \<and> j \<le> length (product_locations example_planner) \<longrightarrow>
             example_router (map_arr example_planner) (product_locations example_planner ! (i - 1))
               (product_locations example_planner ! (j - 1)) =
               Inr ([example_locations ! (i - 1), example_locations ! (j - 1)], 1) \<and> 0 < (1::real)"
    by (simp add: f example_router_def)
  have a: "all_pairs 3 = [(1, 2), (1, 3), (2, 3)]"
    by (simp add: all_pairs_def upt_rec)
  have l: "length (product_locations example_planner) = 3"
    by (simp add: f example_locations_def)
  show ?thesis
    using calculate_inter_product_routes_all_pairs
      [where p = example_planner and rta = example_router and C = "\<lambda>i j. 1"
         and P = "\<lambda>i j. [example_locations ! (i - 1), example_locations ! (j - 1)]", OF b r]
    unfolding l by (simp add: a cong: if_cong)
qed

section \<open>Node 0 and the stored data\<close>














lemma example_fields:
  "map_arr example_planner = cost_map example_img"
  "product_locations example_planner = example_locations"
  using init_fields [OF example_init] by simp_all





section \<open>The end of the route\<close>

text \<open>
  Claim C1, evaluated. The query \<^verbatim>\<open>get_path((2, 0), [1, 2, 3], 2)\<close> on the example planner,
  with a solver that returns the tour \<open>0, 4, 1, 2, 3\<close> (of least cost: the dummy node 4 sits
  between node 0 and node 1), returns the route \<open>0, 3, 2, 1\<close>. It starts at the current
  position and holds every requested stop once, but it ends at stop 1 and not at the
  mandatory end 2: \<^verbatim>\<open>end_at_id\<close> is turned into the position 1 of stop 2 in the list as
  the caller gave it, before the current position is put in front of that list.
\<close>

theorem get_path_ends_at_wrong_stop:
  "snd (get_path example_router example_solver example_planner (2, 0) [1, 2, 3] 2) =
     Inr ([(2, 0), (2, 2), (2, 2), (0, 2), (0, 2), (0, 0)], [0, 3, 2, 1])"
  by code_simp

section \<open>The dummy node\<close>

lemma insert_dummy_node_edges:
  assumes "insert_dummy_node p dists end_id = (q, Inr dists1)"
  shows "\<exists>m. get_max_index_value_in_dists dists = Inr m \<and> dummy_id q = Some (m + 1) \<and>
             dists1 = dists @ [(0, m + 1, 1), (m + 1, end_id, 1)]"
  using assms
  by (auto simp: insert_dummy_node_def user_position_id_def split: if_splits sum.splits)

text \<open>
  Claim C6, evaluated. In the same query the solver is handed \<open>example_graph\<close> and the node
  count 5: the dummy node is 4, one above the largest node 3, with the two edges
  \<open>(0, 4, 1)\<close> and \<open>(4, 1, 1)\<close>, and it is not in the returned route. But node 1 is the
  first requested stop (the entry at position 1 of the list with the current position
  in front), not the mandatory end 2, whose node is 2.
\<close>

theorem dummy_node_tied_to_wrong_stop:
  "snd (get_path example_router example_checking_solver example_planner (2, 0) [1, 2, 3] 2) =
     Inr ([(2, 0), (2, 2), (2, 2), (0, 2), (0, 2), (0, 0)], [0, 3, 2, 1])
   \<and> dummy_id (fst (get_path example_router example_checking_solver example_planner (2, 0)
                        [1, 2, 3] 2)) = Some 4
   \<and> py_get [0, 1, 2, 3] 1 = Inr (1 :: int)"
  by code_simp

section \<open>Positions outside the grid\<close>

lemma inner_search_guarded:
  "out_of_bounds g loc_end \<Longrightarrow>
   inter_product_inner rta g i_start loc_start ((i, loc_end) # rest) (dists, paths) = Inl ValueError"
  by (simp add: raise_if_out_of_bounds_def)

lemma outer_search_guarded:
  "out_of_bounds g loc_start \<Longrightarrow>
   inter_product_outer rta g locs ((i, loc_start) # rest) (dists, paths) = Inl ValueError"
  by (simp add: raise_if_out_of_bounds_def)

text \<open>
  Claim C5, evaluated. The pairwise precomputation checks both endpoints before every
  search and raises \<^verbatim>\<open>ValueError\<close> for a location outside the grid. The search from the
  current position has no such check: \<^verbatim>\<open>_calculate_user_product_routes\<close> hands the position
  to the grid search as it is, and with a search that answers, a query from \<open>(-1, -1)\<close>,
  which is outside the grid, returns a path that starts there.
\<close>

theorem user_position_not_checked:
  "out_of_bounds (map_arr example_planner) (- 1, - 1)
   \<and> snd (get_path example_router example_solver example_planner (- 1, - 1) [1, 2, 3] 2) =
       Inr ([(- 1, - 1), (2, 2), (2, 2), (0, 2), (0, 2), (0, 0)], [0, 3, 2, 1])
   \<and> isl (calculate_inter_product_routes example_router
             (example_planner\<lparr>product_locations := [(0, 0), (- 1, - 1)]\<rparr>))
   \<and> projl (calculate_inter_product_routes example_router
               (example_planner\<lparr>product_locations := [(0, 0), (- 1, - 1)]\<rparr>)) = ValueError"
  by code_simp

end
